theory Spec2Isabelle
  imports Main
begin

section \<open>Data model of \<open>mod.ts\<close>\<close>

text \<open>
  The module is TypeScript running on a JavaScript engine, so the values that flow through
  the router are JavaScript values. Strings are kept as byte lists in UTF-8; the strings the
  router itself inspects (method names, property keys, URLs, captured path segments) are
  ASCII.

  Objects that the code compares or returns by reference carry an identity. The allocation
  state \<open>heap\<close> is the number of objects created so far, and \<open>new Response(...)\<close>
  gives the new object that number as its identity.
\<close>

type_synonym heap = nat

datatype Error = TypeError | URIError | UserError string

record Response =
  ident :: nat
  status :: nat
  body :: "string option"

datatype Promise = Fulfilled Response | Rejected Error

record Request =
  "method" :: string
  url :: string

record ServeHandlerInfo =
  remoteAddr :: string

text \<open>
  \<open>URLPatternResult["pathname"]["groups"]\<close> is a \<open>Record<string, string | undefined>\<close>.
  It is kept as an association list in the order in which \<open>for (const key in query)\<close>
  enumerates it; \<open>None\<close> is \<open>undefined\<close>.
\<close>

type_synonym Groups = "(string \<times> string option) list"

record HandlerData =
  request :: Request
  info :: ServeHandlerInfo
  query :: Groups

text \<open>
  What a property of a method mapping can hold at run time. The declared type
  \<open>ResponseLike\<close> is \<open>ResponseV\<close>, \<open>PromiseV\<close> or a \<open>FunctionV\<close> that returns
  one of the two; the other constructors are needed for what the built-in members of
  \<open>Object.prototype\<close> are and return (\<open>PrototypeV\<close> is the object \<open>Object.prototype\<close>
  itself). A function is called with the data object and the allocation state, and either
  throws (\<open>Inl\<close>) or returns a value.
\<close>

datatype JSValue =
    Undefined
  | StringV string
  | ResponseV Response
  | PromiseV Promise
  | DataV HandlerData
  | PrototypeV
  | FunctionV "HandlerData \<Rightarrow> heap \<Rightarrow> (Error + JSValue) \<times> heap"

text \<open>
  An ordinary object: its own properties and the properties of its prototype.
  \<open>key in obj\<close> and \<open>obj[key]\<close> both look at the own properties first and at the
  prototype next.
\<close>

record JSObject =
  own :: "string \<rightharpoonup> JSValue"
  proto :: "string \<rightharpoonup> JSValue"

definition js_in :: "string \<Rightarrow> JSObject \<Rightarrow> bool" where
  "js_in key obj = (own obj key \<noteq> None \<or> proto obj key \<noteq> None)"

definition js_get :: "JSObject \<Rightarrow> string \<Rightarrow> JSValue" where
  "js_get obj key =
     (case own obj key of
        Some v \<Rightarrow> v
      | None \<Rightarrow> (case proto obj key of Some v \<Rightarrow> v | None \<Rightarrow> Undefined))"

text \<open>
  \<open>Object.prototype\<close>, the prototype of every object literal. The router calls what it finds
  in a mapping as a plain function (\<open>response({ request, info, query })\<close>), so a built-in
  member runs with \<open>this\<close> undefined and the data object as its first argument:
  \<open>toString\<close> returns \<open>"[object Undefined]"\<close>, \<open>constructor\<close> (that is, \<open>Object\<close>)
  returns its argument, and the members that convert \<open>this\<close> to an object throw a
  \<open>TypeError\<close>. The accessor \<open>__proto__\<close> (ECMA-262 B.2.2.1) is a member too; read
  from an object literal it gives the literal's prototype, which is not a function.
\<close>

definition this_undefined :: JSValue where
  "this_undefined = FunctionV (\<lambda>data h. (Inl TypeError, h))"

definition Object_prototype :: "string \<rightharpoonup> JSValue" where
  "Object_prototype =
     [''constructor'' \<mapsto> FunctionV (\<lambda>data h. (Inr (DataV data), h)),
      ''toString'' \<mapsto> FunctionV (\<lambda>data h. (Inr (StringV ''[object Undefined]''), h)),
      ''toLocaleString'' \<mapsto> this_undefined,
      ''valueOf'' \<mapsto> this_undefined,
      ''hasOwnProperty'' \<mapsto> this_undefined,
      ''isPrototypeOf'' \<mapsto> this_undefined,
      ''propertyIsEnumerable'' \<mapsto> this_undefined,
      ''__defineGetter__'' \<mapsto> this_undefined,
      ''__defineSetter__'' \<mapsto> this_undefined,
      ''__lookupGetter__'' \<mapsto> this_undefined,
      ''__lookupSetter__'' \<mapsto> this_undefined,
      ''__proto__'' \<mapsto> PrototypeV]"

subsection \<open>The enum \<open>Method\<close>\<close>

datatype Method = GET | POST | PUT | DELETE | PATCH

fun Method_value :: "Method \<Rightarrow> string" where
  "Method_value GET = ''GET''"
| "Method_value POST = ''POST''"
| "Method_value PUT = ''PUT''"
| "Method_value DELETE = ''DELETE''"
| "Method_value PATCH = ''PATCH''"

definition supported :: "string \<Rightarrow> bool" where
  "supported m = (m \<in> set (map Method_value [GET, POST, PUT, DELETE, PATCH]))"

subsection \<open>\<open>URLPattern\<close>\<close>

text \<open>
  \<open>URLPattern\<close> belongs to the runtime. A compiled pattern is represented by what its
  \<open>exec\<close> answers for each input; \<open>test\<close> is, as in the URL Pattern standard, whether
  \<open>exec\<close> finds a match. Of the result only \<open>pathname.groups\<close> is read by the router.
\<close>

record URLPatternComponentResult =
  groups :: Groups

record URLPatternResult =
  pathname :: URLPatternComponentResult

record URLPattern =
  exec :: "string \<Rightarrow> URLPatternResult option"

definition test :: "URLPattern \<Rightarrow> string \<Rightarrow> bool" where
  "test pattern u = (exec pattern u \<noteq> None)"

subsection \<open>\<open>decodeURIComponent\<close>\<close>

text \<open>
  The runtime's decoder, after the operation \<open>Decode\<close> of ECMA-262 with an empty set of
  preserved characters. Every \<open>%\<close> must be followed by two hexadecimal digits; an escaped
  octet below \<open>0x80\<close> is the character itself; an escaped octet that starts a multi-byte
  sequence must be followed by the escaped continuation octets of one well-formed UTF-8
  encoding of a code point. Anything else throws \<open>URIError\<close>. With strings kept in UTF-8
  the decoded code point is written as the octets that were read.
\<close>

definition hex_digit :: "char \<Rightarrow> nat option" where
  "hex_digit c =
     (let n = (of_char c :: nat) in
      if 48 \<le> n \<and> n \<le> 57 then Some (n - 48)
      else if 65 \<le> n \<and> n \<le> 70 then Some (n - 55)
      else if 97 \<le> n \<and> n \<le> 102 then Some (n - 87)
      else None)"

datatype code_unit = Plain char | Escaped nat

fun unescape :: "string \<Rightarrow> code_unit list option" where
  "unescape [] = Some []"
| "unescape (c # cs) =
     (if c = CHR ''%'' then
        (case cs of
           a # b # rest \<Rightarrow>
             (case (hex_digit a, hex_digit b) of
                (Some x, Some y) \<Rightarrow> map_option ((#) (Escaped (16 * x + y))) (unescape rest)
              | _ \<Rightarrow> None)
         | _ \<Rightarrow> None)
      else map_option ((#) (Plain c)) (unescape cs))"

fun continuation :: "nat \<Rightarrow> code_unit list \<Rightarrow> nat list option" where
  "continuation 0 us = Some []"
| "continuation (Suc k) (Escaped b # us) = map_option ((#) b) (continuation k us)"
| "continuation (Suc k) us = None"

definition cont_octet :: "nat \<Rightarrow> bool" where
  "cont_octet b = (128 \<le> b \<and> b \<le> 191)"

fun valid_utf8 :: "nat list \<Rightarrow> bool" where
  "valid_utf8 [b0, b1] = (194 \<le> b0 \<and> b0 \<le> 223 \<and> cont_octet b1)"
| "valid_utf8 [b0, b1, b2] =
     ((if b0 = 224 then 160 \<le> b1 \<and> b1 \<le> 191
       else if b0 = 237 then 128 \<le> b1 \<and> b1 \<le> 159
       else 225 \<le> b0 \<and> b0 \<le> 239 \<and> cont_octet b1) \<and> cont_octet b2)"
| "valid_utf8 [b0, b1, b2, b3] =
     ((if b0 = 240 then 144 \<le> b1 \<and> b1 \<le> 191
       else if b0 = 244 then 128 \<le> b1 \<and> b1 \<le> 143
       else 241 \<le> b0 \<and> b0 \<le> 243 \<and> cont_octet b1) \<and> cont_octet b2 \<and> cont_octet b3)"
| "valid_utf8 bs = False"

fun assemble :: "code_unit list \<Rightarrow> string option" where
  "assemble [] = Some []"
| "assemble (Plain c # us) = map_option ((#) c) (assemble us)"
| "assemble (Escaped b # us) =
     (if b < 128 then map_option ((#) (char_of b)) (assemble us)
      else if b < 192 \<or> 248 \<le> b then None
      else
        (let n = (if b < 224 then 2 else if b < 240 then 3 else 4 :: nat) in
         case continuation (n - 1) us of
           None \<Rightarrow> None
         | Some bs \<Rightarrow>
             if valid_utf8 (b # bs)
             then map_option ((@) (map char_of (b # bs))) (assemble (drop (n - 1) us))
             else None))"

definition decodeURIComponent :: "string \<Rightarrow> Error + string" where
  "decodeURIComponent s =
     (case unescape s of
        None \<Rightarrow> Inl URIError
      | Some us \<Rightarrow> (case assemble us of None \<Rightarrow> Inl URIError | Some r \<Rightarrow> Inr r))"

text \<open>
  The loop over the captured groups:
  \<^verbatim>\<open>for (const key in query) { if (query[key]) query[key] = decodeURIComponent(query[key]!); }\<close>
  A value is truthy when it is a string that is not empty. The first decoding that throws
  ends the loop.
\<close>

fun decode_query :: "Groups \<Rightarrow> Error + Groups" where
  "decode_query [] = Inr []"
| "decode_query ((key, v) # rest) =
     (case v of
        None \<Rightarrow> map_sum id ((#) (key, v)) (decode_query rest)
      | Some s \<Rightarrow>
          if s = [] then map_sum id ((#) (key, v)) (decode_query rest)
          else
            (case decodeURIComponent s of
               Inl e \<Rightarrow> Inl e
             | Inr s' \<Rightarrow> map_sum id ((#) (key, Some s')) (decode_query rest)))"

section \<open>The router\<close>

text \<open>
  The source file holds two variants of the class \<open>Router\<close>. The first has the field
  \<open>_routes\<close> only; the second has the field \<open>_defaultResponse\<close> as well, set once when the
  router is constructed. Names of the second variant end in \<open>2\<close>.
\<close>

record Router =
  routes :: "(URLPattern \<times> JSObject) list"

record Router2 = Router +
  defaultResponse :: Response

definition new_Response :: "string option \<Rightarrow> nat \<Rightarrow> heap \<Rightarrow> Response \<times> heap" where
  "new_Response b st h = (\<lparr>ident = h, status = st, body = b\<rparr>, Suc h)"

definition new_Router :: Router where
  "new_Router = \<lparr>routes = []\<rparr>"

definition new_Router2 :: "heap \<Rightarrow> Router2 \<times> heap" where
  "new_Router2 h =
     (let (r, h') = new_Response None 404 h
      in (\<lparr>routes = [], defaultResponse = r\<rparr>, h'))"

subsection \<open>\<open>handler\<close>\<close>

text \<open>
  The dispatch loop of the first variant. An entry is skipped (\<open>continue\<close>) when the
  request's method is not \<open>in\<close> its mapping or its pattern does not \<open>test\<close> the URL. The
  first entry that passes both checks ends the loop: a function is called with the decoded
  groups and its completion is the handler's; any other value is returned as it is. After
  the loop a new \<open>Response(null, { status: 404 })\<close> is returned.
\<close>

fun handler_loop ::
  "(URLPattern \<times> JSObject) list \<Rightarrow> Request \<Rightarrow> ServeHandlerInfo \<Rightarrow> heap
     \<Rightarrow> (Error + JSValue) \<times> heap" where
  "handler_loop [] req sinfo h =
     (let (r, h') = new_Response None 404 h in (Inr (ResponseV r), h'))"
| "handler_loop ((pattern, methodResponses) # rest) req sinfo h =
     (if \<not> js_in (method req) methodResponses then handler_loop rest req sinfo h
      else if \<not> test pattern (url req) then handler_loop rest req sinfo h
      else
        (let response = js_get methodResponses (method req) in
         case response of
           FunctionV f \<Rightarrow>
             (case exec pattern (url req) of
                None \<Rightarrow> (Inl TypeError, h)
              | Some result \<Rightarrow>
                  (case decode_query (groups (pathname result)) of
                     Inl e \<Rightarrow> (Inl e, h)
                   | Inr q \<Rightarrow> f \<lparr>request = req, info = sinfo, query = q\<rparr> h))
         | _ \<Rightarrow> (Inr response, h)))"

definition handler ::
  "Router \<Rightarrow> Request \<Rightarrow> ServeHandlerInfo \<Rightarrow> heap \<Rightarrow> (Error + JSValue) \<times> heap" where
  "handler r req sinfo h = handler_loop (routes r) req sinfo h"

text \<open>The same loop in the second variant; after the loop the stored response is returned.\<close>

fun handler_loop2 ::
  "(URLPattern \<times> JSObject) list \<Rightarrow> Response \<Rightarrow> Request \<Rightarrow> ServeHandlerInfo \<Rightarrow> heap
     \<Rightarrow> (Error + JSValue) \<times> heap" where
  "handler_loop2 [] dflt req sinfo h = (Inr (ResponseV dflt), h)"
| "handler_loop2 ((pattern, methodResponses) # rest) dflt req sinfo h =
     (if \<not> js_in (method req) methodResponses then handler_loop2 rest dflt req sinfo h
      else if \<not> test pattern (url req) then handler_loop2 rest dflt req sinfo h
      else
        (let response = js_get methodResponses (method req) in
         case response of
           FunctionV f \<Rightarrow>
             (case exec pattern (url req) of
                None \<Rightarrow> (Inl TypeError, h)
              | Some result \<Rightarrow>
                  (case decode_query (groups (pathname result)) of
                     Inl e \<Rightarrow> (Inl e, h)
                   | Inr q \<Rightarrow> f \<lparr>request = req, info = sinfo, query = q\<rparr> h))
         | _ \<Rightarrow> (Inr response, h)))"

definition handler2 ::
  "Router2 \<Rightarrow> Request \<Rightarrow> ServeHandlerInfo \<Rightarrow> heap \<Rightarrow> (Error + JSValue) \<times> heap" where
  "handler2 r req sinfo h = handler_loop2 (routes r) (defaultResponse r) req sinfo h"

subsection \<open>Registration\<close>

text \<open>
  Every registration method evaluates \<open>new URLPattern({ pathname: pattern })\<close> and pushes
  the pair onto \<open>_routes\<close>. The constructor of \<open>URLPattern\<close> is the runtime's and throws on
  a template it cannot parse; it is the parameter \<open>new_URLPattern\<close>. A method that throws
  has not reached \<open>push\<close>: the result is the error (\<open>Inl\<close>) and the router is as it
  was. The object literal
  \<open>{ GET: response }\<close> has the one own property and \<open>Object.prototype\<close> as prototype.
\<close>

definition route ::
  "(string \<Rightarrow> Error + URLPattern) \<Rightarrow> string \<Rightarrow> JSObject \<Rightarrow> Router \<Rightarrow> Error + Router" where
  "route new_URLPattern pattern methods r =
     (case new_URLPattern pattern of
        Inl e \<Rightarrow> Inl e
      | Inr p \<Rightarrow> Inr (r\<lparr>routes := routes r @ [(p, methods)]\<rparr>))"

definition get ::
  "(string \<Rightarrow> Error + URLPattern) \<Rightarrow> string \<Rightarrow> JSValue \<Rightarrow> Router \<Rightarrow> Error + Router" where
  "get new_URLPattern pattern response r =
     (case new_URLPattern pattern of
        Inl e \<Rightarrow> Inl e
      | Inr p \<Rightarrow>
          Inr (r\<lparr>routes := routes r @
            [(p, \<lparr>own = [''GET'' \<mapsto> response], proto = Object_prototype\<rparr>)]\<rparr>))"

definition post ::
  "(string \<Rightarrow> Error + URLPattern) \<Rightarrow> string \<Rightarrow> JSValue \<Rightarrow> Router \<Rightarrow> Error + Router" where
  "post new_URLPattern pattern response r =
     (case new_URLPattern pattern of
        Inl e \<Rightarrow> Inl e
      | Inr p \<Rightarrow>
          Inr (r\<lparr>routes := routes r @
            [(p, \<lparr>own = [''POST'' \<mapsto> response], proto = Object_prototype\<rparr>)]\<rparr>))"

definition put ::
  "(string \<Rightarrow> Error + URLPattern) \<Rightarrow> string \<Rightarrow> JSValue \<Rightarrow> Router \<Rightarrow> Error + Router" where
  "put new_URLPattern pattern response r =
     (case new_URLPattern pattern of
        Inl e \<Rightarrow> Inl e
      | Inr p \<Rightarrow>
          Inr (r\<lparr>routes := routes r @
            [(p, \<lparr>own = [''PUT'' \<mapsto> response], proto = Object_prototype\<rparr>)]\<rparr>))"

definition delete ::
  "(string \<Rightarrow> Error + URLPattern) \<Rightarrow> string \<Rightarrow> JSValue \<Rightarrow> Router \<Rightarrow> Error + Router" where
  "delete new_URLPattern pattern response r =
     (case new_URLPattern pattern of
        Inl e \<Rightarrow> Inl e
      | Inr p \<Rightarrow>
          Inr (r\<lparr>routes := routes r @
            [(p, \<lparr>own = [''DELETE'' \<mapsto> response], proto = Object_prototype\<rparr>)]\<rparr>))"

definition patch ::
  "(string \<Rightarrow> Error + URLPattern) \<Rightarrow> string \<Rightarrow> JSValue \<Rightarrow> Router \<Rightarrow> Error + Router" where
  "patch new_URLPattern pattern response r =
     (case new_URLPattern pattern of
        Inl e \<Rightarrow> Inl e
      | Inr p \<Rightarrow>
          Inr (r\<lparr>routes := routes r @
            [(p, \<lparr>own = [''PATCH'' \<mapsto> response], proto = Object_prototype\<rparr>)]\<rparr>))"

text \<open>The registration methods of the second variant.\<close>

definition route2 ::
  "(string \<Rightarrow> Error + URLPattern) \<Rightarrow> string \<Rightarrow> JSObject \<Rightarrow> Router2 \<Rightarrow> Error + Router2" where
  "route2 new_URLPattern pattern methods r =
     (case new_URLPattern pattern of
        Inl e \<Rightarrow> Inl e
      | Inr p \<Rightarrow> Inr (r\<lparr>routes := routes r @ [(p, methods)]\<rparr>))"

definition get2 ::
  "(string \<Rightarrow> Error + URLPattern) \<Rightarrow> string \<Rightarrow> JSValue \<Rightarrow> Router2 \<Rightarrow> Error + Router2" where
  "get2 new_URLPattern pattern response r =
     (case new_URLPattern pattern of
        Inl e \<Rightarrow> Inl e
      | Inr p \<Rightarrow>
          Inr (r\<lparr>routes := routes r @
            [(p, \<lparr>own = [''GET'' \<mapsto> response], proto = Object_prototype\<rparr>)]\<rparr>))"

definition post2 ::
  "(string \<Rightarrow> Error + URLPattern) \<Rightarrow> string \<Rightarrow> JSValue \<Rightarrow> Router2 \<Rightarrow> Error + Router2" where
  "post2 new_URLPattern pattern response r =
     (case new_URLPattern pattern of
        Inl e \<Rightarrow> Inl e
      | Inr p \<Rightarrow>
          Inr (r\<lparr>routes := routes r @
            [(p, \<lparr>own = [''POST'' \<mapsto> response], proto = Object_prototype\<rparr>)]\<rparr>))"

definition put2 ::
  "(string \<Rightarrow> Error + URLPattern) \<Rightarrow> string \<Rightarrow> JSValue \<Rightarrow> Router2 \<Rightarrow> Error + Router2" where
  "put2 new_URLPattern pattern response r =
     (case new_URLPattern pattern of
        Inl e \<Rightarrow> Inl e
      | Inr p \<Rightarrow>
          Inr (r\<lparr>routes := routes r @
            [(p, \<lparr>own = [''PUT'' \<mapsto> response], proto = Object_prototype\<rparr>)]\<rparr>))"

definition delete2 ::
  "(string \<Rightarrow> Error + URLPattern) \<Rightarrow> string \<Rightarrow> JSValue \<Rightarrow> Router2 \<Rightarrow> Error + Router2" where
  "delete2 new_URLPattern pattern response r =
     (case new_URLPattern pattern of
        Inl e \<Rightarrow> Inl e
      | Inr p \<Rightarrow>
          Inr (r\<lparr>routes := routes r @
            [(p, \<lparr>own = [''DELETE'' \<mapsto> response], proto = Object_prototype\<rparr>)]\<rparr>))"

definition patch2 ::
  "(string \<Rightarrow> Error + URLPattern) \<Rightarrow> string \<Rightarrow> JSValue \<Rightarrow> Router2 \<Rightarrow> Error + Router2" where
  "patch2 new_URLPattern pattern response r =
     (case new_URLPattern pattern of
        Inl e \<Rightarrow> Inl e
      | Inr p \<Rightarrow>
          Inr (r\<lparr>routes := routes r @
            [(p, \<lparr>own = [''PATCH'' \<mapsto> response], proto = Object_prototype\<rparr>)]\<rparr>))"

section \<open>Notions used to state the properties\<close>

text \<open>An entry passes when neither \<open>continue\<close> of the loop is taken for it.\<close>

definition passes :: "Request \<Rightarrow> URLPattern \<times> JSObject \<Rightarrow> bool" where
  "passes req e = (js_in (method req) (snd e) \<and> test (fst e) (url req))"

text \<open>The position of the first entry that passes.\<close>

fun first_match :: "(URLPattern \<times> JSObject) list \<Rightarrow> Request \<Rightarrow> nat option" where
  "first_match [] req = None"
| "first_match (e # rest) req =
     (if passes req e then Some 0 else map_option Suc (first_match rest req))"

text \<open>The producer of an entry for a request: what \<open>methodResponses[request.method]\<close> is.\<close>

definition producer :: "URLPattern \<times> JSObject \<Rightarrow> Request \<Rightarrow> JSValue" where
  "producer e req = js_get (snd e) (method req)"

text \<open>
  What the dispatcher answers from a producer: a function is called with the request, the
  info and the decoded groups, any other value is the answer.
\<close>

definition respond ::
  "URLPattern \<times> JSObject \<Rightarrow> Request \<Rightarrow> ServeHandlerInfo \<Rightarrow> heap \<Rightarrow> (Error + JSValue) \<times> heap" where
  "respond e req sinfo h =
     (case producer e req of
        FunctionV f \<Rightarrow>
          (case exec (fst e) (url req) of
             None \<Rightarrow> (Inl TypeError, h)
           | Some result \<Rightarrow>
               (case decode_query (groups (pathname result)) of
                  Inl err \<Rightarrow> (Inl err, h)
                | Inr q \<Rightarrow> f \<lparr>request = req, info = sinfo, query = q\<rparr> h))
      | v \<Rightarrow> (Inr v, h))"

text \<open>
  How a captured value reaches the handler function: \<open>undefined\<close> and the empty string
  as they are, any other string decoded.
\<close>

definition passed_as :: "string option \<Rightarrow> string option \<Rightarrow> bool" where
  "passed_as v v' =
     (case v of
        None \<Rightarrow> v' = None
      | Some s \<Rightarrow>
          if s = [] then v' = Some []
          else (case decodeURIComponent s of Inl e \<Rightarrow> False | Inr s' \<Rightarrow> v' = Some s'))"

text \<open>
  A registration call, and a sequence of calls made one after the other on a router. A call
  that throws ends the sequence.
\<close>

datatype Registration =
    Route string JSObject
  | Get string JSValue
  | Post string JSValue
  | Put string JSValue
  | Delete string JSValue
  | Patch string JSValue

fun register ::
  "(string \<Rightarrow> Error + URLPattern) \<Rightarrow> Registration \<Rightarrow> Router \<Rightarrow> Error + Router" where
  "register mk (Route t m) r = route mk t m r"
| "register mk (Get t p) r = get mk t p r"
| "register mk (Post t p) r = post mk t p r"
| "register mk (Put t p) r = put mk t p r"
| "register mk (Delete t p) r = delete mk t p r"
| "register mk (Patch t p) r = patch mk t p r"

fun register_all ::
  "(string \<Rightarrow> Error + URLPattern) \<Rightarrow> Registration list \<Rightarrow> Router \<Rightarrow> Error + Router" where
  "register_all mk [] r = Inr r"
| "register_all mk (c # cs) r =
     (case register mk c r of Inl e \<Rightarrow> Inl e | Inr r' \<Rightarrow> register_all mk cs r')"

fun register2 ::
  "(string \<Rightarrow> Error + URLPattern) \<Rightarrow> Registration \<Rightarrow> Router2 \<Rightarrow> Error + Router2" where
  "register2 mk (Route t m) r = route2 mk t m r"
| "register2 mk (Get t p) r = get2 mk t p r"
| "register2 mk (Post t p) r = post2 mk t p r"
| "register2 mk (Put t p) r = put2 mk t p r"
| "register2 mk (Delete t p) r = delete2 mk t p r"
| "register2 mk (Patch t p) r = patch2 mk t p r"

fun register_all2 ::
  "(string \<Rightarrow> Error + URLPattern) \<Rightarrow> Registration list \<Rightarrow> Router2 \<Rightarrow> Error + Router2" where
  "register_all2 mk [] r = Inr r"
| "register_all2 mk (c # cs) r =
     (case register2 mk c r of Inl e \<Rightarrow> Inl e | Inr r' \<Rightarrow> register_all2 mk cs r')"

text \<open>The template of a call and the mapping that the call is meant to store.\<close>

fun template :: "Registration \<Rightarrow> string" where
  "template (Route t m) = t"
| "template (Get t p) = t"
| "template (Post t p) = t"
| "template (Put t p) = t"
| "template (Delete t p) = t"
| "template (Patch t p) = t"

definition single :: "Method \<Rightarrow> JSValue \<Rightarrow> JSObject" where
  "single m p = \<lparr>own = [Method_value m \<mapsto> p], proto = Object_prototype\<rparr>"

fun mapping :: "Registration \<Rightarrow> JSObject" where
  "mapping (Route t m) = m"
| "mapping (Get t p) = single GET p"
| "mapping (Post t p) = single POST p"
| "mapping (Put t p) = single PUT p"
| "mapping (Delete t p) = single DELETE p"
| "mapping (Patch t p) = single PATCH p"

text \<open>
  A mapping as the type \<open>MethodResponses\<close> describes it and as an object literal builds
  it: own keys among the five methods, prototype \<open>Object.prototype\<close>.
\<close>

definition literal_MethodResponses :: "JSObject \<Rightarrow> bool" where
  "literal_MethodResponses m =
     (dom (own m) \<subseteq> Collect supported \<and> proto m = Object_prototype)"

section \<open>Example patterns and routers\<close>

text \<open>
  Patterns for the examples. A pattern built from a pathname template looks at the
  pathname of the URL only, whatever its origin, query or fragment. \<open>url_pathname\<close> reads
  the pathname off the serialised absolute URL that \<open>request.url\<close> is.
  \<open>literal_pattern\<close> is the pattern of a template without pattern syntax: it matches the
  URLs with exactly that pathname and captures nothing. \<open>segment_pattern\<close> is the pattern of
  a template that ends in \<open>/:name\<close>: it matches the URLs whose pathname continues the
  literal part with one non-empty segment, which it captures under \<open>name\<close>.
\<close>

definition url_pathname :: "string \<Rightarrow> string" where
  "url_pathname u =
     (let after_scheme = drop 3 (dropWhile (\<lambda>c. c \<noteq> CHR '':'') u);
          path = takeWhile (\<lambda>c. c \<noteq> CHR ''?'' \<and> c \<noteq> CHR ''#'')
                   (dropWhile (\<lambda>c. c \<noteq> CHR ''/'') after_scheme)
      in if path = [] then ''/'' else path)"

definition literal_pattern :: "string \<Rightarrow> URLPattern" where
  "literal_pattern t =
     \<lparr>exec = (\<lambda>u. if url_pathname u = t then Some \<lparr>pathname = \<lparr>groups = []\<rparr>\<rparr> else None)\<rparr>"

definition segment_pattern :: "string \<Rightarrow> string \<Rightarrow> URLPattern" where
  "segment_pattern pre name =
     \<lparr>exec = (\<lambda>u.
        let path = url_pathname u; seg = drop (length pre) path in
        if take (length pre) path = pre \<and> seg \<noteq> [] \<and> CHR ''/'' \<notin> set seg
        then Some \<lparr>pathname = \<lparr>groups = [(name, Some seg)]\<rparr>\<rparr>
        else None)\<rparr>"

text \<open>
  A constructor for the examples. It builds the two kinds of pattern above from templates
  of these two forms: a path of unreserved characters and slashes, and such a path that
  ends in a slash, followed by \<open>:\<close> and a name. Every other template is outside the
  examples and is answered with \<open>TypeError\<close>, which is what the runtime answers for a
  template it cannot parse, such as \<open>/(\<close>.
\<close>

definition plain_char :: "char \<Rightarrow> bool" where
  "plain_char c =
     (c \<in> set ''abcdefghijklmnopqrstuvwxyzABCDEFGHIJKLMNOPQRSTUVWXYZ0123456789/-_.~'')"

definition name_char :: "char \<Rightarrow> bool" where
  "name_char c =
     (c \<in> set ''abcdefghijklmnopqrstuvwxyzABCDEFGHIJKLMNOPQRSTUVWXYZ0123456789_'')"

definition example_URLPattern :: "string \<Rightarrow> Error + URLPattern" where
  "example_URLPattern t =
     (let pre = takeWhile (\<lambda>c. c \<noteq> CHR '':'') t; name = drop (Suc (length pre)) t in
      if take 1 t = ''/'' \<and> list_all plain_char t then Inr (literal_pattern t)
      else if take 1 t = ''/'' \<and> list_all plain_char pre \<and> last pre = CHR ''/'' \<and>
              length pre < length t \<and> name \<noteq> [] \<and> list_all name_char name
      then Inr (segment_pattern pre name)
      else Inl TypeError)"

definition ok :: Response where
  "ok = \<lparr>ident = 0, status = 200, body = None\<rparr>"

definition created :: Response where
  "created = \<lparr>ident = 1, status = 201, body = None\<rparr>"

definition local :: ServeHandlerInfo where
  "local = \<lparr>remoteAddr = ''127.0.0.1''\<rparr>"

text \<open>A handler function that answers with the captured \<open>name\<close> as body.\<close>

definition echo_name :: "HandlerData \<Rightarrow> heap \<Rightarrow> (Error + JSValue) \<times> heap" where
  "echo_name data h =
     (let (r, h') = new_Response (case map_of (query data) ''name'' of
                                    None \<Rightarrow> None | Some v \<Rightarrow> v) 200 h
      in (Inr (ResponseV r), h'))"

text \<open>A handler function that throws, and one that returns a rejected promise.\<close>

definition failing :: "HandlerData \<Rightarrow> heap \<Rightarrow> (Error + JSValue) \<times> heap" where
  "failing data h = (Inl (UserError ''boom''), h)"

definition rejecting :: "HandlerData \<Rightarrow> heap \<Rightarrow> (Error + JSValue) \<times> heap" where
  "rejecting data h = (Inr (PromiseV (Rejected (UserError ''boom''))), h)"

definition overlapping :: Router where
  "overlapping =
     \<lparr>routes = [(literal_pattern ''/x'', single GET (ResponseV ok)),
                (segment_pattern ''/'' ''seg'', single GET (ResponseV created))]\<rparr>"

definition get_x :: Request where
  "get_x = \<lparr>method = ''GET'', url = ''http://localhost/x''\<rparr>"

definition post_x :: Request where
  "post_x = \<lparr>method = ''POST'', url = ''http://localhost/x''\<rparr>"

definition only_get_x :: Router where
  "only_get_x = \<lparr>routes = [(literal_pattern ''/x'', single GET (ResponseV ok))]\<rparr>"

definition items :: Router where
  "items =
     \<lparr>routes = [(segment_pattern ''/items/'' ''name'',
                 single GET (FunctionV echo_name))]\<rparr>"

definition get_item :: Request where
  "get_item = \<lparr>method = ''GET'', url = ''http://localhost/items/a%2Fb''\<rparr>"

definition unreliable :: Router where
  "unreliable =
     \<lparr>routes = [(literal_pattern ''/x'',
                 \<lparr>own = [''GET'' \<mapsto> FunctionV failing, ''POST'' \<mapsto> FunctionV rejecting],
                  proto = Object_prototype\<rparr>)]\<rparr>"

definition toString_x :: Request where
  "toString_x = \<lparr>method = ''toString'', url = ''http://localhost/x''\<rparr>"

definition only_get_x2 :: Router2 where
  "only_get_x2 =
     \<lparr>routes = [(literal_pattern ''/x'', single GET (ResponseV ok))],
      defaultResponse = \<lparr>ident = 2, status = 404, body = None\<rparr>\<rparr>"

definition get_post_x :: Router where
  "get_post_x =
     \<lparr>routes = [(literal_pattern ''/x'', single GET (ResponseV ok)),
                (literal_pattern ''/x'', single POST (ResponseV created))]\<rparr>"

section \<open>The dispatch loop and the first entry that passes\<close>

lemma respond_step:
  "js_in (method req) m \<Longrightarrow> test p (url req) \<Longrightarrow>
   handler_loop ((p, m) # rest) req sinfo h = respond (p, m) req sinfo h"
  by (simp add: respond_def producer_def Let_def split: JSValue.splits option.splits sum.splits)

lemma respond_step2:
  "js_in (method req) m \<Longrightarrow> test p (url req) \<Longrightarrow>
   handler_loop2 ((p, m) # rest) d req sinfo h = respond (p, m) req sinfo h"
  by (simp add: respond_def producer_def Let_def split: JSValue.splits option.splits sum.splits)

lemma handler_loop_first_match:
  "handler_loop rs req sinfo h =
     (case first_match rs req of
        None \<Rightarrow> (Inr (ResponseV \<lparr>ident = h, status = 404, body = None\<rparr>), Suc h)
      | Some k \<Rightarrow> respond (rs ! k) req sinfo h)"
proof (induction rs)
  case Nil
  show ?case by (simp add: new_Response_def)
next
  case (Cons e rs)
  obtain p m where e: "e = (p, m)" by (cases e)
  show ?case
  proof (cases "passes req e")
    case True
    then show ?thesis using respond_step[of req m p rs sinfo h] e
      by (simp add: passes_def)
  next
    case False
    then have "handler_loop (e # rs) req sinfo h = handler_loop rs req sinfo h"
      using e by (auto simp: passes_def)
    then show ?thesis using False Cons.IH
      by (simp split: option.splits)
  qed
qed

lemma handler_loop2_first_match:
  "handler_loop2 rs d req sinfo h =
     (case first_match rs req of
        None \<Rightarrow> (Inr (ResponseV d), h)
      | Some k \<Rightarrow> respond (rs ! k) req sinfo h)"
proof (induction rs)
  case Nil
  show ?case by simp
next
  case (Cons e rs)
  obtain p m where e: "e = (p, m)" by (cases e)
  show ?case
  proof (cases "passes req e")
    case True
    then show ?thesis using respond_step2[of req m p rs d sinfo h] e
      by (simp add: passes_def)
  next
    case False
    then have "handler_loop2 (e # rs) d req sinfo h = handler_loop2 rs d req sinfo h"
      using e by (auto simp: passes_def)
    then show ?thesis using False Cons.IH
      by (simp split: option.splits)
  qed
qed

lemma first_match_None_iff:
  "first_match rs req = None \<longleftrightarrow> (\<forall>e \<in> set rs. \<not> passes req e)"
  by (induction rs) auto

lemma first_match_Some_iff:
  "first_match rs req = Some k \<longleftrightarrow>
     k < length rs \<and> passes req (rs ! k) \<and> (\<forall>n<k. \<not> passes req (rs ! n))"
proof (induction rs arbitrary: k)
  case Nil
  show ?case by simp
next
  case (Cons e rs)
  show ?case
  proof (cases "passes req e")
    case True
    then show ?thesis by (cases k) auto
  next
    case False
    show ?thesis
    proof (cases k)
      case 0
      then show ?thesis using False by auto
    next
      case (Suc k')
      have "(\<forall>n<Suc k'. \<not> passes req ((e # rs) ! n)) \<longleftrightarrow> (\<forall>n<k'. \<not> passes req (rs ! n))"
        using False by (auto simp: less_Suc_eq_0_disj)
      then show ?thesis using False Suc Cons.IH[of k'] by auto
    qed
  qed
qed

lemma handler_first_match:
  "handler r req sinfo h =
     (case first_match (routes r) req of
        None \<Rightarrow> (Inr (ResponseV \<lparr>ident = h, status = 404, body = None\<rparr>), Suc h)
      | Some k \<Rightarrow> respond (routes r ! k) req sinfo h)"
  by (simp add: handler_def handler_loop_first_match)

lemma handler_loop_skip:
  assumes "\<not> passes req e"
  shows "handler_loop (pre @ e # suf) req sinfo h = handler_loop (pre @ suf) req sinfo h"
proof (induction pre)
  case Nil
  obtain p m where "e = (p, m)" by (cases e)
  then show ?case using assms by (auto simp: passes_def)
next
  case (Cons a pre)
  obtain p m where "a = (p, m)" by (cases a)
  then show ?case using Cons.IH by simp
qed

section \<open>Dispatch\<close>

text \<open>
  Claim C1 (first match wins). Whenever two entries of the table both pass for a request,
  that is, the request's method is in both mappings and both patterns match its URL, the
  dispatcher answers from the producer of the first entry of the table that passes. That
  entry is registered no later than the earlier of the two, so it is never the later one,
  and it is the earlier one itself when nothing before it passes.
\<close>

theorem first_match_wins:
  assumes "i < j" and "j < length (routes r)"
    and "passes req (routes r ! i)" and "passes req (routes r ! j)"
  shows "\<exists>k. first_match (routes r) req = Some k \<and> k \<le> i \<and> k < j \<and>
           handler r req sinfo h = respond (routes r ! k) req sinfo h \<and>
           ((\<forall>n<i. \<not> passes req (routes r ! n)) \<longrightarrow> k = i)"
proof -
  have "i < length (routes r)" using assms(1,2) by simp
  then have "routes r ! i \<in> set (routes r)" by simp
  then have "first_match (routes r) req \<noteq> None"
    using assms(3) first_match_None_iff[of "routes r" req] by blast
  then obtain k where k: "first_match (routes r) req = Some k" by blast
  then have pk: "passes req (routes r ! k)" and mink: "\<forall>n<k. \<not> passes req (routes r ! n)"
    using first_match_Some_iff[of "routes r" req k] by simp_all
  have "k \<le> i"
  proof (rule ccontr)
    assume "\<not> k \<le> i"
    then have "i < k" by simp
    then show False using mink assms(3) by blast
  qed
  moreover have "handler r req sinfo h = respond (routes r ! k) req sinfo h"
    using k by (simp add: handler_first_match)
  moreover have "(\<forall>n<i. \<not> passes req (routes r ! n)) \<longrightarrow> k = i"
    using pk \<open>k \<le> i\<close> by (auto simp: le_less)
  ultimately show ?thesis using k assms(1) by auto
qed

lemma passes_overlapping_0: "passes get_x (routes overlapping ! 0)"
  by (simp add: passes_def overlapping_def get_x_def js_in_def single_def test_def
      literal_pattern_def url_pathname_def)

lemma passes_overlapping_1: "passes get_x (routes overlapping ! 1)"
  by (simp add: passes_def overlapping_def get_x_def js_in_def single_def test_def
      segment_pattern_def url_pathname_def)

lemma respond_overlapping_0:
  "respond (routes overlapping ! 0) get_x sinfo h = (Inr (ResponseV ok), h)"
  by (simp add: respond_def producer_def js_get_def overlapping_def get_x_def single_def)

lemma respond_overlapping_1:
  "respond (routes overlapping ! 1) get_x sinfo h = (Inr (ResponseV created), h)"
  by (simp add: respond_def producer_def js_get_def overlapping_def get_x_def single_def)

theorem first_match_wins_witness:
  "passes get_x (routes overlapping ! 0) \<and> passes get_x (routes overlapping ! 1) \<and>
   handler overlapping get_x local 5 = (Inr (ResponseV ok), 5) \<and>
   handler overlapping get_x local 5 \<noteq> respond (routes overlapping ! 1) get_x local 5"
proof -
  have len: "1 < length (routes overlapping)" by (simp add: overlapping_def)
  obtain k where "k \<le> 0"
    and "handler overlapping get_x local 5 = respond (routes overlapping ! k) get_x local 5"
    using first_match_wins[OF zero_less_one len passes_overlapping_0 passes_overlapping_1,
        of local 5]
    by blast
  then have "handler overlapping get_x local 5 = (Inr (ResponseV ok), 5)"
    using respond_overlapping_0[of local 5] by simp
  then show ?thesis
    using passes_overlapping_0 passes_overlapping_1 respond_overlapping_1[of local 5]
    by (simp add: ok_def created_def)
qed

text \<open>
  When no entry of the table passes, that is, for no entry the request's method is \<open>in\<close>
  the mapping while the pattern matches the request's URL, the dispatcher returns a new
  response with status 404 and no body. An entry for which the method is not \<open>in\<close> the
  mapping is skipped wherever it stands in the table, whether or not its pattern matches:
  the dispatcher answers as it would without that entry.
\<close>

lemma no_passing_entry_404:
  "((\<forall>e \<in> set (routes r). \<not> passes req e) \<longrightarrow>
      handler r req sinfo h =
        (Inr (ResponseV \<lparr>ident = h, status = 404, body = None\<rparr>), Suc h)) \<and>
   (\<not> js_in (method req) m \<longrightarrow>
      handler (r\<lparr>routes := pre @ (p, m) # suf\<rparr>) req sinfo h =
      handler (r\<lparr>routes := pre @ suf\<rparr>) req sinfo h)"
proof (intro conjI impI)
  assume "\<forall>e \<in> set (routes r). \<not> passes req e"
  then have "first_match (routes r) req = None" by (simp add: first_match_None_iff)
  then show "handler r req sinfo h =
      (Inr (ResponseV \<lparr>ident = h, status = 404, body = None\<rparr>), Suc h)"
    by (simp add: handler_first_match)
next
  assume "\<not> js_in (method req) m"
  then have "\<not> passes req (p, m)" by (simp add: passes_def)
  then show "handler (r\<lparr>routes := pre @ (p, m) # suf\<rparr>) req sinfo h =
      handler (r\<lparr>routes := pre @ suf\<rparr>) req sinfo h"
    by (simp add: handler_def handler_loop_skip)
qed

lemma no_passing_entry_404_example:
  "test (literal_pattern ''/x'') (url post_x) \<and>
   \<not> js_in (method post_x) (single GET (ResponseV ok)) \<and>
   handler only_get_x post_x local 7 =
     (Inr (ResponseV \<lparr>ident = 7, status = 404, body = None\<rparr>), 8) \<and>
   handler only_get_x post_x local 7 = handler new_Router post_x local 7"
proof -
  have a: "test (literal_pattern ''/x'') (url post_x)"
    by (simp add: test_def literal_pattern_def url_pathname_def post_x_def)
  have b: "\<not> js_in (method post_x) (single GET (ResponseV ok))"
    by (simp add: js_in_def single_def post_x_def Object_prototype_def)
  have c: "\<forall>e \<in> set (routes only_get_x). \<not> passes post_x e"
    using b by (simp add: only_get_x_def passes_def)
  have d: "only_get_x\<lparr>routes := [] @ (literal_pattern ''/x'', single GET (ResponseV ok)) # []\<rparr> = only_get_x"
    by (simp add: only_get_x_def)
  have e: "only_get_x\<lparr>routes := [] @ []\<rparr> = new_Router"
    by (simp add: only_get_x_def new_Router_def)
  show ?thesis
    using no_passing_entry_404[of only_get_x post_x local 7 "single GET (ResponseV ok)" "[]"
        "literal_pattern ''/x''" "[]"] a b c d e
    by (simp add: handler_def new_Router_def new_Response_def)
qed

section \<open>Captured parameters\<close>

lemma decodeURIComponent_space: "decodeURIComponent ''a%20b'' = Inr ''a b''"
  by code_simp

lemma decodeURIComponent_slash: "decodeURIComponent ''a%2Fb'' = Inr ''a/b''"
  by code_simp

lemma decodeURIComponent_error: "decodeURIComponent s = Inl e \<Longrightarrow> e = URIError"
  by (auto simp: decodeURIComponent_def split: option.splits)

lemma map_sum_Inr_iff: "map_sum id f x = Inr q \<longleftrightarrow> (\<exists>q0. x = Inr q0 \<and> q = f q0)"
  by (cases x) auto

lemma decode_query_passed:
  "decode_query gs = Inr q \<Longrightarrow>
   list_all2 (\<lambda>(key, v) (key', v'). key' = key \<and> passed_as v v') gs q"
proof (induction gs arbitrary: q)
  case Nil
  then show ?case by simp
next
  case (Cons g gs)
  obtain key v where g: "g = (key, v)" by (cases g)
  show ?case
  proof (cases v)
    case None
    then obtain q0 where "decode_query gs = Inr q0" and "q = (key, None) # q0"
      using Cons.prems g by (auto simp: map_sum_Inr_iff)
    then show ?thesis using Cons.IH[of q0] g None by (simp add: passed_as_def)
  next
    case (Some s)
    show ?thesis
    proof (cases "s = []")
      case True
      then obtain q0 where "decode_query gs = Inr q0" and "q = (key, Some []) # q0"
        using Cons.prems g Some by (auto simp: map_sum_Inr_iff)
      then show ?thesis using Cons.IH[of q0] g Some True by (simp add: passed_as_def)
    next
      case False
      then obtain s' q0 where "decodeURIComponent s = Inr s'"
        and "decode_query gs = Inr q0" and "q = (key, Some s') # q0"
        using Cons.prems g Some by (auto simp: map_sum_Inr_iff split: sum.splits)
      then show ?thesis using Cons.IH[of q0] g Some False by (simp add: passed_as_def)
    qed
  qed
qed

lemma respond_function:
  assumes "producer e req = FunctionV f"
    and "exec (fst e) (url req) = Some res"
    and "decode_query (groups (pathname res)) = Inr q"
  shows "respond e req sinfo h = f \<lparr>request = req, info = sinfo, query = q\<rparr> h"
  using assms by (simp add: respond_def)

text \<open>
  Claim C3 (percent-decoding of captured parameters). When the dispatcher selects an entry
  whose producer is a handler function and every non-empty captured value can be decoded,
  the function is called with the request, the info and the groups in which every value
  that is a non-empty string is replaced by its percent-decoded form, while an empty string
  and an absent value are passed as they are. The decoder turns \<open>a%20b\<close> into \<open>a b\<close>
  and \<open>a%2Fb\<close> into \<open>a/b\<close>.
\<close>

theorem captured_params_decoded:
  assumes "first_match (routes r) req = Some k"
    and "producer (routes r ! k) req = FunctionV f"
    and "exec (fst (routes r ! k)) (url req) = Some res"
    and "decode_query (groups (pathname res)) = Inr q"
  shows "handler r req sinfo h = f \<lparr>request = req, info = sinfo, query = q\<rparr> h \<and>
         list_all2 (\<lambda>(key, v) (key', v'). key' = key \<and> passed_as v v')
           (groups (pathname res)) q \<and>
         passed_as (Some ''a%20b'') (Some ''a b'') \<and>
         passed_as (Some ''a%2Fb'') (Some ''a/b'') \<and>
         passed_as (Some []) (Some []) \<and> passed_as None None"
proof -
  have "handler r req sinfo h = respond (routes r ! k) req sinfo h"
    using assms(1) by (simp add: handler_first_match)
  then have "handler r req sinfo h = f \<lparr>request = req, info = sinfo, query = q\<rparr> h"
    using respond_function[OF assms(2,3,4)] by simp
  moreover have "passed_as (Some ''a%20b'') (Some ''a b'')"
    by (simp add: passed_as_def decodeURIComponent_space)
  moreover have "passed_as (Some ''a%2Fb'') (Some ''a/b'')"
    by (simp add: passed_as_def decodeURIComponent_slash)
  moreover have "passed_as (Some []) (Some [])" and "passed_as None None"
    by (simp_all add: passed_as_def)
  ultimately show ?thesis using decode_query_passed[OF assms(4)] by simp
qed

lemma first_match_items: "first_match (routes items) get_item = Some 0"
  by (simp add: items_def get_item_def passes_def js_in_def single_def test_def
      segment_pattern_def url_pathname_def)

lemma producer_items: "producer (routes items ! 0) get_item = FunctionV echo_name"
  by (simp add: items_def get_item_def producer_def js_get_def single_def)

lemma exec_items:
  "exec (fst (routes items ! 0)) (url get_item) =
     Some \<lparr>pathname = \<lparr>groups = [(''name'', Some ''a%2Fb'')]\<rparr>\<rparr>"
  by (simp add: items_def get_item_def segment_pattern_def url_pathname_def)

lemma decode_items:
  "decode_query (groups (pathname \<lparr>pathname = \<lparr>groups = [(''name'', Some ''a%2Fb'')]\<rparr>\<rparr>)) =
     Inr [(''name'', Some ''a/b'')]"
  by (simp add: decodeURIComponent_slash)

theorem captured_params_decoded_witness:
  "first_match (routes items) get_item = Some 0 \<and>
   handler items get_item local 4 =
     (Inr (ResponseV \<lparr>ident = 4, status = 200, body = Some ''a/b''\<rparr>), 5)"
  using captured_params_decoded[OF first_match_items producer_items exec_items decode_items,
      of local 4]
    first_match_items
  by (simp add: echo_name_def new_Response_def)

text \<open>
  A captured value that cannot be decoded ends the dispatch with \<open>URIError\<close>; the handler
  function is not called.
\<close>

lemma decode_query_error: "decode_query gs = Inl e \<Longrightarrow> e = URIError"
proof (induction gs)
  case Nil
  then show ?case by simp
next
  case (Cons g gs)
  obtain key v where "g = (key, v)" by (cases g)
  then show ?case
    using Cons decodeURIComponent_error
    by (cases "decode_query gs") (auto split: option.splits if_splits sum.splits)
qed

lemma respond_decode_failure:
  assumes "producer e req = FunctionV f"
    and "exec (fst e) (url req) = Some res"
    and "decode_query (groups (pathname res)) = Inl err"
  shows "respond e req sinfo h = (Inl URIError, h)"
  using assms decode_query_error[OF assms(3)] by (simp add: respond_def)

section \<open>Handler functions that fail\<close>

text \<open>
  Claim C9 (handler failures propagate unchanged). When the selected entry's producer is a
  handler function and the function throws an error or returns a rejected promise, the
  dispatcher's completion is exactly the function's: the same thrown error, or the same
  rejected promise, with nothing caught, wrapped or turned into a response. The dispatcher
  has the router as an argument only, so the route table is as it was.
\<close>

theorem handler_failure_propagates:
  assumes "first_match (routes r) req = Some k"
    and "producer (routes r ! k) req = FunctionV f"
    and "exec (fst (routes r ! k)) (url req) = Some res"
    and "decode_query (groups (pathname res)) = Inr q"
    and "f \<lparr>request = req, info = sinfo, query = q\<rparr> h = (c, h')"
    and "c = Inl e \<or> c = Inr (PromiseV (Rejected e))"
  shows "handler r req sinfo h = (c, h')"
proof -
  have "handler r req sinfo h = respond (routes r ! k) req sinfo h"
    using assms(1) by (simp add: handler_first_match)
  then show ?thesis using respond_function[OF assms(2,3,4)] assms(5) by simp
qed

lemma first_match_unreliable_get: "first_match (routes unreliable) get_x = Some 0"
  by (simp add: unreliable_def get_x_def passes_def js_in_def test_def literal_pattern_def url_pathname_def)

lemma first_match_unreliable_post: "first_match (routes unreliable) post_x = Some 0"
  by (simp add: unreliable_def post_x_def passes_def js_in_def test_def literal_pattern_def url_pathname_def)

lemma producer_unreliable_get: "producer (routes unreliable ! 0) get_x = FunctionV failing"
  by (simp add: unreliable_def get_x_def producer_def js_get_def)

lemma producer_unreliable_post: "producer (routes unreliable ! 0) post_x = FunctionV rejecting"
  by (simp add: unreliable_def post_x_def producer_def js_get_def)

lemma exec_unreliable_get:
  "exec (fst (routes unreliable ! 0)) (url get_x) = Some \<lparr>pathname = \<lparr>groups = []\<rparr>\<rparr>"
  by (simp add: unreliable_def get_x_def literal_pattern_def url_pathname_def)

lemma exec_unreliable_post:
  "exec (fst (routes unreliable ! 0)) (url post_x) = Some \<lparr>pathname = \<lparr>groups = []\<rparr>\<rparr>"
  by (simp add: unreliable_def post_x_def literal_pattern_def url_pathname_def)

lemma decode_no_groups:
  "decode_query (groups (pathname \<lparr>pathname = \<lparr>groups = []\<rparr>\<rparr>)) = Inr []"
  by simp

theorem handler_failure_propagates_witness:
  "handler unreliable get_x local 9 = (Inl (UserError ''boom''), 9) \<and>
   handler unreliable post_x local 9 = (Inr (PromiseV (Rejected (UserError ''boom''))), 9)"
proof -
  have a: "failing \<lparr>request = get_x, info = local, query = []\<rparr> 9 = (Inl (UserError ''boom''), 9)"
    by (simp add: failing_def)
  have b: "rejecting \<lparr>request = post_x, info = local, query = []\<rparr> 9 =
      (Inr (PromiseV (Rejected (UserError ''boom''))), 9)"
    by (simp add: rejecting_def)
  have "handler unreliable get_x local 9 = (Inl (UserError ''boom''), 9)"
    using handler_failure_propagates[OF first_match_unreliable_get producer_unreliable_get
        exec_unreliable_get decode_no_groups a, of "UserError ''boom''"]
    by simp
  moreover have "handler unreliable post_x local 9 =
      (Inr (PromiseV (Rejected (UserError ''boom''))), 9)"
    using handler_failure_propagates[OF first_match_unreliable_post producer_unreliable_post
        exec_unreliable_post decode_no_groups b, of "UserError ''boom''"]
    by simp
  ultimately show ?thesis by simp
qed

section \<open>Determinism\<close>

text \<open>
  Claim C8 (dispatch is deterministic). For a fixed table and request, any two dispatches,
  whatever the serve info and however many objects have been allocated in between, select
  the same entry (the first that passes) and answer from the same producer of that entry;
  when the producer is not a function both return that very value. Nothing of a request
  is kept: the selection depends on the table and the request alone.
\<close>

theorem dispatch_deterministic:
  "(case first_match (routes r) req of
      None \<Rightarrow>
        handler r req s1 h1 =
          (Inr (ResponseV \<lparr>ident = h1, status = 404, body = None\<rparr>), Suc h1) \<and>
        handler r req s2 h2 =
          (Inr (ResponseV \<lparr>ident = h2, status = 404, body = None\<rparr>), Suc h2)
    | Some k \<Rightarrow>
        handler r req s1 h1 = respond (routes r ! k) req s1 h1 \<and>
        handler r req s2 h2 = respond (routes r ! k) req s2 h2 \<and>
        ((\<forall>f. producer (routes r ! k) req \<noteq> FunctionV f) \<longrightarrow>
           handler r req s1 h1 = (Inr (producer (routes r ! k) req), h1) \<and>
           handler r req s2 h2 = (Inr (producer (routes r ! k) req), h2)))"
proof (cases "first_match (routes r) req")
  case None
  then show ?thesis by (simp add: handler_first_match)
next
  case (Some k)
  have "(\<forall>f. producer (routes r ! k) req \<noteq> FunctionV f) \<Longrightarrow>
      respond (routes r ! k) req s h = (Inr (producer (routes r ! k) req), h)" for s h
    by (cases "producer (routes r ! k) req") (simp_all add: respond_def)
  then show ?thesis using Some by (simp add: handler_first_match)
qed

theorem dispatch_deterministic_witness:
  "first_match (routes overlapping) get_x = Some 0 \<and>
   handler overlapping get_x local 5 = (Inr (ResponseV ok), 5) \<and>
   handler overlapping get_x \<lparr>remoteAddr = ''10.0.0.1''\<rparr> 6 = (Inr (ResponseV ok), 6)"
proof -
  have fm: "first_match (routes overlapping) get_x = Some 0"
    using passes_overlapping_0 by (simp add: overlapping_def)
  have pr: "producer (routes overlapping ! 0) get_x = ResponseV ok"
    by (simp add: producer_def js_get_def overlapping_def get_x_def single_def)
  show ?thesis
    using dispatch_deterministic[of overlapping get_x local 5 "\<lparr>remoteAddr = ''10.0.0.1''\<rparr>" 6]
      fm pr
    by (simp add: respond_overlapping_0)
qed

section \<open>Registration of routes\<close>

lemma register_eq:
  "register mk c r =
     (case mk (template c) of
        Inl e \<Rightarrow> Inl e
      | Inr p \<Rightarrow> Inr (r\<lparr>routes := routes r @ [(p, mapping c)]\<rparr>))"
  by (cases c)
    (simp_all add: route_def get_def post_def put_def delete_def patch_def single_def
      split: sum.splits)

lemma register2_eq:
  "register2 mk c r =
     (case mk (template c) of
        Inl e \<Rightarrow> Inl e
      | Inr p \<Rightarrow> Inr (r\<lparr>routes := routes r @ [(p, mapping c)]\<rparr>))"
  by (cases c)
    (simp_all add: route2_def get2_def post2_def put2_def delete2_def patch2_def single_def
      split: sum.splits)

lemma register_all_Inr:
  "register_all mk cs r = Inr r' \<Longrightarrow>
   \<exists>new. routes r' = routes r @ new \<and>
     list_all2 (\<lambda>c e. mk (template c) = Inr (fst e) \<and> snd e = mapping c) cs new"
proof (induction cs arbitrary: r)
  case Nil
  then show ?case by simp
next
  case (Cons c cs)
  from Cons.prems obtain p where p: "mk (template c) = Inr p"
    and rest: "register_all mk cs (r\<lparr>routes := routes r @ [(p, mapping c)]\<rparr>) = Inr r'"
    by (auto simp: register_eq split: sum.splits)
  from Cons.IH[OF rest] obtain new where
    "routes r' = (routes r @ [(p, mapping c)]) @ new"
    and "list_all2 (\<lambda>c e. mk (template c) = Inr (fst e) \<and> snd e = mapping c) cs new"
    by auto
  then have "routes r' = routes r @ ((p, mapping c) # new) \<and>
      list_all2 (\<lambda>c e. mk (template c) = Inr (fst e) \<and> snd e = mapping c)
        (c # cs) ((p, mapping c) # new)"
    using p by simp
  then show ?case by blast
qed

lemma register_all_Inl:
  "register_all mk cs r = Inl e \<Longrightarrow> \<exists>c \<in> set cs. mk (template c) = Inl e"
proof (induction cs arbitrary: r)
  case Nil
  then show ?case by simp
next
  case (Cons c cs)
  show ?case
  proof (cases "mk (template c)")
    case (Inl e')
    then show ?thesis using Cons.prems by (simp add: register_eq)
  next
    case (Inr p)
    then have "register_all mk cs (r\<lparr>routes := routes r @ [(p, mapping c)]\<rparr>) = Inl e"
      using Cons.prems by (simp add: register_eq)
    then show ?thesis using Cons.IH by auto
  qed
qed

text \<open>
  Claim C5 (convenience registration is sugar for \<open>route\<close>). For every template and
  producer, \<open>get\<close> has exactly the outcome of \<open>route\<close> with the mapping
  \<open>{ GET: producer }\<close>: the same router, or the same error of the pattern constructor.
  The same holds for \<open>post\<close>, \<open>put\<close>, \<open>delete\<close> and \<open>patch\<close> with their methods,
  in both variants of the class. Equal routers dispatch equally.
\<close>

theorem convenience_is_route:
  "get mk t p r = route mk t \<lparr>own = [''GET'' \<mapsto> p], proto = Object_prototype\<rparr> r \<and>
   post mk t p r = route mk t \<lparr>own = [''POST'' \<mapsto> p], proto = Object_prototype\<rparr> r \<and>
   put mk t p r = route mk t \<lparr>own = [''PUT'' \<mapsto> p], proto = Object_prototype\<rparr> r \<and>
   delete mk t p r = route mk t \<lparr>own = [''DELETE'' \<mapsto> p], proto = Object_prototype\<rparr> r \<and>
   patch mk t p r = route mk t \<lparr>own = [''PATCH'' \<mapsto> p], proto = Object_prototype\<rparr> r \<and>
   get2 mk t p r2 = route2 mk t \<lparr>own = [''GET'' \<mapsto> p], proto = Object_prototype\<rparr> r2 \<and>
   post2 mk t p r2 = route2 mk t \<lparr>own = [''POST'' \<mapsto> p], proto = Object_prototype\<rparr> r2 \<and>
   put2 mk t p r2 = route2 mk t \<lparr>own = [''PUT'' \<mapsto> p], proto = Object_prototype\<rparr> r2 \<and>
   delete2 mk t p r2 =
     route2 mk t \<lparr>own = [''DELETE'' \<mapsto> p], proto = Object_prototype\<rparr> r2 \<and>
   patch2 mk t p r2 = route2 mk t \<lparr>own = [''PATCH'' \<mapsto> p], proto = Object_prototype\<rparr> r2"
  by (simp add: route_def get_def post_def put_def delete_def patch_def
      route2_def get2_def post2_def put2_def delete2_def patch2_def)

lemma example_URLPattern_x:
  "example_URLPattern ''/x'' = Inr (literal_pattern ''/x'')"
  by (simp add: example_URLPattern_def plain_char_def)

lemma example_URLPattern_rejects: "example_URLPattern ''/('' = Inl TypeError"
  by (simp add: example_URLPattern_def plain_char_def)

lemma example_URLPattern_items:
  "example_URLPattern ''/items/:name'' = Inr (segment_pattern ''/items/'' ''name'')"
  by (simp add: example_URLPattern_def plain_char_def name_char_def)

lemma get_only_get_x:
  "get example_URLPattern ''/x'' (ResponseV ok) new_Router = Inr only_get_x"
  by (simp add: get_def example_URLPattern_x new_Router_def only_get_x_def single_def)

theorem convenience_is_route_witness:
  "route example_URLPattern ''/x'' \<lparr>own = [''GET'' \<mapsto> ResponseV ok], proto = Object_prototype\<rparr>
     new_Router = Inr only_get_x"
  using convenience_is_route[of example_URLPattern "''/x''" "ResponseV ok" new_Router]
    get_only_get_x
  by simp

text \<open>
  Claim C6 (registration appends and keeps the order). Each of the six registration
  methods either fails with the error of the pattern constructor, or returns the router
  with one entry added at the end of the table, namely the compiled pattern and the call's
  mapping, and with every earlier entry where it was. After a sequence of calls the table
  is the old table followed by one entry per call, in the order of the calls, so nothing
  is removed, moved or merged; a sequence fails only where the constructor rejects the
  template of one of its calls.
\<close>

theorem registration_appends:
  "register mk c r =
     (case mk (template c) of
        Inl e \<Rightarrow> Inl e
      | Inr p \<Rightarrow> Inr (r\<lparr>routes := routes r @ [(p, mapping c)]\<rparr>)) \<and>
   (register_all mk cs r = Inr r' \<longrightarrow>
      (\<exists>new. routes r' = routes r @ new \<and>
         list_all2 (\<lambda>c e. mk (template c) = Inr (fst e) \<and> snd e = mapping c) cs new)) \<and>
   (register_all mk cs r = Inl e \<longrightarrow> (\<exists>c \<in> set cs. mk (template c) = Inl e))"
  using register_eq[of mk c r] register_all_Inr[of mk cs r r'] register_all_Inl[of mk cs r e]
  by blast

lemma register_all_twice:
  "register_all example_URLPattern [Get ''/x'' (ResponseV ok), Get ''/x'' (ResponseV ok)]
     new_Router =
   Inr \<lparr>routes = [(literal_pattern ''/x'', single GET (ResponseV ok)),
                  (literal_pattern ''/x'', single GET (ResponseV ok))]\<rparr>"
  by (simp add: get_def example_URLPattern_x new_Router_def single_def)

lemma register_all_rejected:
  "register_all example_URLPattern [Get ''/x'' (ResponseV ok), Post ''/('' (ResponseV ok)]
     new_Router = Inl TypeError"
  by (simp add: get_def post_def example_URLPattern_x example_URLPattern_rejects new_Router_def)

theorem registration_appends_witness:
  "register_all example_URLPattern [Get ''/x'' (ResponseV ok), Get ''/x'' (ResponseV ok)]
     new_Router =
   Inr \<lparr>routes = [(literal_pattern ''/x'', single GET (ResponseV ok)),
                  (literal_pattern ''/x'', single GET (ResponseV ok))]\<rparr> \<and>
   register_all example_URLPattern [Get ''/x'' (ResponseV ok), Post ''/('' (ResponseV ok)]
     new_Router = Inl TypeError \<and>
   (\<exists>c. c \<in> set [Get ''/x'' (ResponseV ok), Post ''/('' (ResponseV ok)] \<and>
     example_URLPattern (template c) = Inl TypeError) \<and>
   (\<exists>new. length new = 2 \<and>
      [(literal_pattern ''/x'', single GET (ResponseV ok)),
       (literal_pattern ''/x'', single GET (ResponseV ok))] = [] @ new)"
proof -
  let ?r = "\<lparr>routes = [(literal_pattern ''/x'', single GET (ResponseV ok)),
                  (literal_pattern ''/x'', single GET (ResponseV ok))]\<rparr>"
  have a: "\<exists>c \<in> set [Get ''/x'' (ResponseV ok), Post ''/('' (ResponseV ok)].
      example_URLPattern (template c) = Inl TypeError"
    using registration_appends[of example_URLPattern "Get ''/x'' (ResponseV ok)" new_Router
        "[Get ''/x'' (ResponseV ok), Post ''/('' (ResponseV ok)]" ?r TypeError]
      register_all_rejected
    by blast
  have "\<exists>new. routes ?r = routes new_Router @ new \<and>
      list_all2 (\<lambda>c e. example_URLPattern (template c) = Inr (fst e) \<and> snd e = mapping c)
        [Get ''/x'' (ResponseV ok), Get ''/x'' (ResponseV ok)] new"
    using registration_appends[of example_URLPattern "Get ''/x'' (ResponseV ok)" new_Router
        "[Get ''/x'' (ResponseV ok), Get ''/x'' (ResponseV ok)]" ?r TypeError]
      register_all_twice
    by blast
  then obtain new where "routes ?r = routes new_Router @ new" and
    "list_all2 (\<lambda>c e. example_URLPattern (template c) = Inr (fst e) \<and> snd e = mapping c)
        [Get ''/x'' (ResponseV ok), Get ''/x'' (ResponseV ok)] new"
    by blast
  then have b: "length new = 2 \<and> routes ?r = [] @ new"
    by (auto simp: new_Router_def dest: list_all2_lengthD)
  show ?thesis using a b register_all_twice register_all_rejected
    by (auto simp: Bex_def)
qed

section \<open>The default response in the two variants\<close>

lemma handler2_first_match:
  "handler2 r req sinfo h =
     (case first_match (routes r) req of
        None \<Rightarrow> (Inr (ResponseV (defaultResponse r)), h)
      | Some k \<Rightarrow> respond (routes r ! k) req sinfo h)"
  by (simp add: handler2_def handler_loop2_first_match)

lemma register_all_variants:
  "routes r1 = routes r2 \<Longrightarrow>
   (\<exists>e. register_all mk cs r1 = Inl e \<and> register_all2 mk cs r2 = Inl e) \<or>
   (\<exists>r1' r2'. register_all mk cs r1 = Inr r1' \<and> register_all2 mk cs r2 = Inr r2' \<and>
      routes r1' = routes r2' \<and> defaultResponse r2' = defaultResponse r2)"
proof (induction cs arbitrary: r1 r2)
  case Nil
  then show ?case by simp
next
  case (Cons c cs)
  show ?case
  proof (cases "mk (template c)")
    case (Inl e)
    then show ?thesis by (simp add: register_eq register2_eq)
  next
    case (Inr p)
    let ?r1 = "r1\<lparr>routes := routes r1 @ [(p, mapping c)]\<rparr>"
    let ?r2 = "r2\<lparr>routes := routes r2 @ [(p, mapping c)]\<rparr>"
    have "routes ?r1 = routes ?r2" using Cons.prems by simp
    from Cons.IH[OF this] show ?thesis using Inr by (simp add: register_eq register2_eq)
  qed
qed

lemma new_Router2_eq:
  "new_Router2 h0 =
     (\<lparr>routes = [], defaultResponse = \<lparr>ident = h0, status = 404, body = None\<rparr>\<rparr>, Suc h0)"
  by (simp add: new_Router2_def new_Response_def)

lemma register_all2_default:
  "register_all2 mk cs r = Inr r' \<Longrightarrow> defaultResponse r' = defaultResponse r"
proof (induction cs arbitrary: r)
  case Nil
  then show ?case by simp
next
  case (Cons c cs)
  from Cons.prems obtain p where
    "register_all2 mk cs (r\<lparr>routes := routes r @ [(p, mapping c)]\<rparr>) = Inr r'"
    by (auto simp: register2_eq split: sum.splits)
  from Cons.IH[OF this] show ?case by simp
qed

text \<open>
  Claim C4 (the default response), as amended. In the variant of the class that has the
  field \<open>_defaultResponse\<close>, the not-found response is one value for the lifetime of the
  router: the constructor creates it, with status 404 and no body, no registration changes
  it, and every dispatch that falls through the table returns that same object and creates
  nothing. In the variant without the field, every dispatch that falls through the table
  returns a newly created response with status 404 and no body.
\<close>

theorem default_response_per_variant:
  "(register_all2 mk cs (fst (new_Router2 h0)) = Inr r2 \<and> first_match (routes r2) req = None
      \<longrightarrow> handler2 r2 req sinfo h =
            (Inr (ResponseV \<lparr>ident = h0, status = 404, body = None\<rparr>), h)) \<and>
   (first_match (routes r) req = None
      \<longrightarrow> handler r req sinfo h =
            (Inr (ResponseV \<lparr>ident = h, status = 404, body = None\<rparr>), Suc h))"
proof (intro conjI impI)
  assume a: "register_all2 mk cs (fst (new_Router2 h0)) = Inr r2 \<and>
    first_match (routes r2) req = None"
  then have "defaultResponse r2 = \<lparr>ident = h0, status = 404, body = None\<rparr>"
    using register_all2_default[of mk cs "fst (new_Router2 h0)" r2]
    by (simp add: new_Router2_eq)
  then show "handler2 r2 req sinfo h =
      (Inr (ResponseV \<lparr>ident = h0, status = 404, body = None\<rparr>), h)"
    using a by (simp add: handler2_first_match)
next
  assume "first_match (routes r) req = None"
  then show "handler r req sinfo h =
      (Inr (ResponseV \<lparr>ident = h, status = 404, body = None\<rparr>), Suc h)"
    by (simp add: handler_first_match)
qed

lemma register_all2_only_get_x2:
  "register_all2 example_URLPattern [Get ''/x'' (ResponseV ok)] (fst (new_Router2 2)) =
     Inr only_get_x2"
  by (simp add: get2_def example_URLPattern_x new_Router2_eq only_get_x2_def single_def)

lemma register_all_only_get_x:
  "register_all example_URLPattern [Get ''/x'' (ResponseV ok)] new_Router = Inr only_get_x"
  by (simp add: get_only_get_x)

lemma first_match_only_get_x_post: "first_match (routes only_get_x) post_x = None"
  by (simp add: only_get_x_def post_x_def passes_def js_in_def single_def
      Object_prototype_def)

lemma first_match_only_get_x2_post: "first_match (routes only_get_x2) post_x = None"
  by (simp add: only_get_x2_def post_x_def passes_def js_in_def single_def
      Object_prototype_def)

lemma first_match_only_get_x_get: "first_match (routes only_get_x) get_x = Some 0"
  by (simp add: only_get_x_def get_x_def passes_def js_in_def single_def test_def
      literal_pattern_def url_pathname_def)

theorem default_response_per_variant_witness:
  "handler2 only_get_x2 post_x local 7 =
     (Inr (ResponseV \<lparr>ident = 2, status = 404, body = None\<rparr>), 7) \<and>
   handler2 only_get_x2 post_x local 8 =
     (Inr (ResponseV \<lparr>ident = 2, status = 404, body = None\<rparr>), 8) \<and>
   handler only_get_x post_x local 7 =
     (Inr (ResponseV \<lparr>ident = 7, status = 404, body = None\<rparr>), 8) \<and>
   handler only_get_x post_x local 8 =
     (Inr (ResponseV \<lparr>ident = 8, status = 404, body = None\<rparr>), 9)"
  using default_response_per_variant[of example_URLPattern "[Get ''/x'' (ResponseV ok)]" 2
      only_get_x2 post_x local 7 only_get_x]
    default_response_per_variant[of example_URLPattern "[Get ''/x'' (ResponseV ok)]" 2
      only_get_x2 post_x local 8 only_get_x]
    register_all2_only_get_x2 first_match_only_get_x2_post first_match_only_get_x_post
  by simp

text \<open>
  Claim C4 as stated fails for the first variant of the class: two dispatches in a row on
  the same router, both falling through the empty table, return two different objects.
\<close>

theorem fresh_404_counterexample:
  "fst (handler new_Router get_x local 0) \<noteq>
   fst (handler new_Router get_x local (snd (handler new_Router get_x local 0)))"
  by (simp add: handler_def new_Router_def new_Response_def)

section \<open>Methods outside the enum\<close>

text \<open>
  Claim C7 (an unsupported method never matches) fails on the code. \<open>toString\<close> is not one
  of the five methods, and the router is built by \<open>get\<close> alone. The check
  \<open>request.method in methodResponses\<close> also finds the members that the object literal
  inherits from \<open>Object.prototype\<close>, so the entry is selected; what is read from the
  mapping is the built-in function, which is called, and its result, a string, is what the
  dispatcher returns instead of the default response.
\<close>

theorem unsupported_method_dispatched:
  "\<not> supported (method toString_x) \<and>
   get example_URLPattern ''/x'' (ResponseV ok) new_Router = Inr only_get_x \<and>
   handler only_get_x toString_x local 1 = (Inr (StringV ''[object Undefined]''), 1)"
proof -
  have "\<not> supported (method toString_x)"
    by (simp add: supported_def toString_x_def)
  moreover have "handler only_get_x toString_x local 1 =
      (Inr (StringV ''[object Undefined]''), 1)"
    by (simp add: handler_def only_get_x_def toString_x_def js_in_def js_get_def single_def
        Object_prototype_def test_def literal_pattern_def url_pathname_def)
  ultimately show ?thesis using get_only_get_x by simp
qed

lemma literal_not_in:
  assumes "literal_MethodResponses m" and "\<not> supported key" and "Object_prototype key = None"
  shows "\<not> js_in key m"
proof -
  have "own m key = None"
    using assms(1,2) by (auto simp: literal_MethodResponses_def)
  then show ?thesis using assms(1,3) by (simp add: js_in_def literal_MethodResponses_def)
qed

text \<open>
  What does hold for unsupported methods: when every mapping of the table is an object
  literal with keys among the five methods, a request whose method is neither one of the
  five nor the name of a member of \<open>Object.prototype\<close> gets the default response.
\<close>

lemma unsupported_method_404_unless_inherited:
  assumes "\<forall>e \<in> set (routes r). literal_MethodResponses (snd e)"
    and "\<not> supported (method req)" and "Object_prototype (method req) = None"
  shows "handler r req sinfo h =
     (Inr (ResponseV \<lparr>ident = h, status = 404, body = None\<rparr>), Suc h)"
proof -
  have "\<forall>e \<in> set (routes r). \<not> passes req e"
    using assms literal_not_in by (auto simp: passes_def)
  then have "first_match (routes r) req = None" by (simp add: first_match_None_iff)
  then show ?thesis by (simp add: handler_first_match)
qed

section \<open>Entries without a producer for the method\<close>

text \<open>
  An entry with no producer of its own for the request's method is skipped when the method
  is not an inherited name either, and the scan goes on to the later entries: with no
  entry left the answer is the default response, and a later entry that has a producer and
  matches is the one that answers.
\<close>

lemma no_producer_404:
  assumes "\<forall>e \<in> set (routes r). own (snd e) (method req) = None \<or> \<not> test (fst e) (url req)"
    and "\<forall>e \<in> set (routes r). proto (snd e) (method req) = None"
  shows "handler r req sinfo h =
     (Inr (ResponseV \<lparr>ident = h, status = 404, body = None\<rparr>), Suc h)"
proof -
  have "\<forall>e \<in> set (routes r). \<not> passes req e"
    using assms by (auto simp: passes_def js_in_def)
  then have "first_match (routes r) req = None" by (simp add: first_match_None_iff)
  then show ?thesis by (simp add: handler_first_match)
qed

lemma register_all_get_post_x:
  "register_all example_URLPattern
     [Get ''/x'' (ResponseV ok), Post ''/x'' (ResponseV created)] new_Router = Inr get_post_x"
  by (simp add: get_def post_def example_URLPattern_x new_Router_def get_post_x_def single_def)

lemma scan_continues_example:
  "test (fst (routes get_post_x ! 0)) (url post_x) \<and>
   \<not> js_in (method post_x) (snd (routes get_post_x ! 0)) \<and>
   handler get_post_x post_x local 2 = (Inr (ResponseV created), 2)"
  by (simp add: handler_def get_post_x_def post_x_def js_in_def js_get_def single_def
      Object_prototype_def test_def literal_pattern_def url_pathname_def)

text \<open>
  Claim C2 (no match yields the default 404) fails on the code. The router is built by
  \<open>get\<close> and \<open>post\<close> on the template \<open>/x\<close>, and the request has the method
  \<open>toString\<close> and the path \<open>/x\<close>. No entry has a producer for that method and the pattern
  of every entry matches, so every entry should be skipped and the default response
  returned. The check \<open>request.method in methodResponses\<close> finds the member that the mapping
  inherits from \<open>Object.prototype\<close>: the first entry is not skipped, and the dispatcher
  returns the string that the built-in function gives, not a response with status 404.
\<close>

theorem no_producer_yet_no_404:
  "register_all example_URLPattern
     [Get ''/x'' (ResponseV ok), Post ''/x'' (ResponseV created)] new_Router = Inr get_post_x \<and>
   list_all (\<lambda>e. own (snd e) (method toString_x) = None) (routes get_post_x) \<and>
   list_all (\<lambda>e. test (fst e) (url toString_x)) (routes get_post_x) \<and>
   handler get_post_x toString_x local 2 = (Inr (StringV ''[object Undefined]''), 2)"
proof -
  have "list_all (\<lambda>e. own (snd e) (method toString_x) = None) (routes get_post_x)"
    by (simp add: get_post_x_def toString_x_def single_def)
  moreover have "list_all (\<lambda>e. test (fst e) (url toString_x)) (routes get_post_x)"
    by (simp add: get_post_x_def toString_x_def test_def literal_pattern_def url_pathname_def)
  moreover have "handler get_post_x toString_x local 2 =
      (Inr (StringV ''[object Undefined]''), 2)"
    by (simp add: handler_def get_post_x_def toString_x_def js_in_def js_get_def single_def
        Object_prototype_def test_def literal_pattern_def url_pathname_def)
  ultimately show ?thesis using register_all_get_post_x by simp
qed

section \<open>Equivalence of the two variants\<close>

text \<open>
  Claim C10 (the two variants of the class are equivalent). After the same sequence of
  registration calls on a new router of each variant, either both have failed with the same
  error, or both hold the same table, and for every request both dispatchers select the
  same entry and answer from it in the same way; when no entry is selected the first
  variant returns a newly created response with status 404 and no body and the second
  returns the one response with status 404 and no body that its constructor created.
\<close>

theorem variants_equivalent:
  "(\<exists>e. register_all mk cs new_Router = Inl e \<and>
        register_all2 mk cs (fst (new_Router2 h0)) = Inl e) \<or>
   (\<exists>r1 r2. register_all mk cs new_Router = Inr r1 \<and>
        register_all2 mk cs (fst (new_Router2 h0)) = Inr r2 \<and>
        routes r1 = routes r2 \<and>
        (\<forall>req sinfo h.
           case first_match (routes r1) req of
             Some k \<Rightarrow>
               handler r1 req sinfo h = respond (routes r1 ! k) req sinfo h \<and>
               handler2 r2 req sinfo h = respond (routes r1 ! k) req sinfo h
           | None \<Rightarrow>
               handler r1 req sinfo h =
                 (Inr (ResponseV \<lparr>ident = h, status = 404, body = None\<rparr>), Suc h) \<and>
               handler2 r2 req sinfo h =
                 (Inr (ResponseV \<lparr>ident = h0, status = 404, body = None\<rparr>), h)))"
proof -
  have "routes new_Router = routes (fst (new_Router2 h0))"
    by (simp add: new_Router_def new_Router2_eq)
  from register_all_variants[OF this, of mk cs]
  show ?thesis
  proof
    assume "\<exists>e. register_all mk cs new_Router = Inl e \<and>
      register_all2 mk cs (fst (new_Router2 h0)) = Inl e"
    then show ?thesis by blast
  next
    assume "\<exists>r1' r2'. register_all mk cs new_Router = Inr r1' \<and>
      register_all2 mk cs (fst (new_Router2 h0)) = Inr r2' \<and>
      routes r1' = routes r2' \<and> defaultResponse r2' = defaultResponse (fst (new_Router2 h0))"
    then obtain r1 r2 where r: "register_all mk cs new_Router = Inr r1"
      "register_all2 mk cs (fst (new_Router2 h0)) = Inr r2" "routes r1 = routes r2"
      and d: "defaultResponse r2 = \<lparr>ident = h0, status = 404, body = None\<rparr>"
      by (auto simp: new_Router2_eq)
    have "\<forall>req sinfo h.
           case first_match (routes r1) req of
             Some k \<Rightarrow>
               handler r1 req sinfo h = respond (routes r1 ! k) req sinfo h \<and>
               handler2 r2 req sinfo h = respond (routes r1 ! k) req sinfo h
           | None \<Rightarrow>
               handler r1 req sinfo h =
                 (Inr (ResponseV \<lparr>ident = h, status = 404, body = None\<rparr>), Suc h) \<and>
               handler2 r2 req sinfo h =
                 (Inr (ResponseV \<lparr>ident = h0, status = 404, body = None\<rparr>), h)"
      using r(3) d by (simp add: handler_first_match handler2_first_match split: option.splits)
    then show ?thesis using r by blast
  qed
qed

theorem variants_equivalent_witness:
  "handler only_get_x get_x local 3 = (Inr (ResponseV ok), 3) \<and>
   handler2 only_get_x2 get_x local 3 = (Inr (ResponseV ok), 3) \<and>
   handler only_get_x post_x local 3 =
     (Inr (ResponseV \<lparr>ident = 3, status = 404, body = None\<rparr>), 4) \<and>
   handler2 only_get_x2 post_x local 3 =
     (Inr (ResponseV \<lparr>ident = 2, status = 404, body = None\<rparr>), 3)"
proof -
  from variants_equivalent[of example_URLPattern "[Get ''/x'' (ResponseV ok)]" 2]
  have all: "\<forall>req sinfo h.
      case first_match (routes only_get_x) req of
        Some k \<Rightarrow>
          handler only_get_x req sinfo h = respond (routes only_get_x ! k) req sinfo h \<and>
          handler2 only_get_x2 req sinfo h = respond (routes only_get_x ! k) req sinfo h
      | None \<Rightarrow>
          handler only_get_x req sinfo h =
            (Inr (ResponseV \<lparr>ident = h, status = 404, body = None\<rparr>), Suc h) \<and>
          handler2 only_get_x2 req sinfo h =
            (Inr (ResponseV \<lparr>ident = 2, status = 404, body = None\<rparr>), h)"
    unfolding register_all_only_get_x register_all2_only_get_x2 by blast
  have resp: "respond (routes only_get_x ! 0) get_x local 3 = (Inr (ResponseV ok), 3)"
    by (simp add: respond_def producer_def js_get_def only_get_x_def get_x_def single_def)
  have "handler only_get_x get_x local 3 = (Inr (ResponseV ok), 3) \<and>
      handler2 only_get_x2 get_x local 3 = (Inr (ResponseV ok), 3)"
    using all[rule_format, of get_x local 3] first_match_only_get_x_get resp by simp
  moreover have "handler only_get_x post_x local 3 =
        (Inr (ResponseV \<lparr>ident = 3, status = 404, body = None\<rparr>), 4) \<and>
      handler2 only_get_x2 post_x local 3 =
        (Inr (ResponseV \<lparr>ident = 2, status = 404, body = None\<rparr>), 3)"
    using all[rule_format, of post_x local 3] first_match_only_get_x_post by simp
  ultimately show ?thesis by simp
qed

end
